theory Spec2Isabelle
  imports
    Main
    "HOL-Library.Log_Nat"
    "HOL-Library.Char_ord"
    "HOL-Library.List_Lexorder"
begin

section \<open>The contribution-statistics pipeline of \<^verbatim>\<open>app.py\<close>\<close>

text \<open>
  The development embeds the three stages of \<^verbatim>\<open>src/app.py\<close>: the memoised fetcher
  \<^verbatim>\<open>fetch_github_data\<close>, the parser \<^verbatim>\<open>parse_contribution_data\<close> and the calculator
  \<^verbatim>\<open>calculate_statistics\<close> with \<^verbatim>\<open>calculate_longest_streak\<close>.

  Conventions.
  \<^item> A Python exception is a value of \<open>py_error\<close>; a function that can raise returns
    \<open>py_error + 'a\<close>, with \<open>Inl\<close> the exception.
  \<^item> A Python \<^verbatim>\<open>str\<close> is a \<open>string\<close>; a \<open>char\<close> stands for the code point of the
    same number, so the model covers the strings whose code points are below 256.
  \<^item> A contribution count is a \<open>nat\<close>: the parser builds it with \<^verbatim>\<open>int\<close> from a match
    of \<^verbatim>\<open>\d+\<close>, so it is never negative, and it has no upper bound.
  \<^item> A Python \<^verbatim>\<open>float\<close> is the rational number it denotes (\<open>PyFloat\<close>); the operations
    that produce one round to binary64 and raise \<^verbatim>\<open>OverflowError\<close> where CPython does.
\<close>

subsection \<open>Exceptions and numbers\<close>

text \<open>
  \<open>ValueError\<close> carries its message. The two messages of \<^verbatim>\<open>fetch_github_data\<close> are the
  source's literals; a \<open>ValueError\<close> raised by the standard library carries the fixed part
  of the library's message only (the library appends the offending data).
\<close>

datatype py_error =
    ValueError string
  | KeyError int
  | OverflowError
  | StatisticsError
  | ZeroDivisionError
  | RequestException
  | OSError

datatype py_number = PyInt int | PyFloat rat

definition pow2 :: "int \<Rightarrow> rat" where
  "pow2 k = (if 0 \<le> k then 2 ^ nat k else 1 / 2 ^ nat (- k))"

text \<open>\<open>floor_log2 q\<close>, for \<open>0 < q\<close>, is the \<open>e\<close> with \<open>2\<^sup>e \<le> q < 2\<^sup>e\<^sup>+\<^sup>1\<close>.\<close>

definition floor_log2 :: "rat \<Rightarrow> int" where
  "floor_log2 q =
     (let (n, d) = quotient_of q; e = bitlen n - bitlen d
      in if pow2 e \<le> q then e else e - 1)"

definition round_half_even :: "rat \<Rightarrow> int" where
  "round_half_even x =
     (let f = \<lfloor>x\<rfloor>; r = x - of_int f
      in if r < 1 / 2 then f
         else if 1 / 2 < r then f + 1
         else if even f then f else f + 1)"

text \<open>
  Rounding a rational to the nearest binary64 value, ties to even: 53 significant bits,
  and a unit in the last place of at least \<open>2\<^sup>-\<^sup>1\<^sup>0\<^sup>7\<^sup>4\<close> (the subnormal range). The result
  is meaningful where \<open>binary64_overflow\<close> is false.
\<close>

definition binary64_round :: "rat \<Rightarrow> rat" where
  "binary64_round q =
     (if q = 0 then 0
      else let e = max (floor_log2 \<bar>q\<bar>) (- 1022); u = pow2 (e - 52)
           in of_int (round_half_even (q / u)) * u)"

text \<open>
  The largest binary64 value is \<open>2\<^sup>1\<^sup>0\<^sup>2\<^sup>4 - 2\<^sup>9\<^sup>7\<^sup>1\<close>; a quotient of at least
  \<open>2\<^sup>1\<^sup>0\<^sup>2\<^sup>4 - 2\<^sup>9\<^sup>7\<^sup>0\<close> rounds past it.
\<close>

definition binary64_limit :: rat where
  "binary64_limit = 2 ^ 1024 - 2 ^ 970"

definition binary64_overflow :: "rat \<Rightarrow> bool" where
  "binary64_overflow q \<longleftrightarrow> binary64_limit \<le> \<bar>q\<bar>"

text \<open>
  \<^verbatim>\<open>a / b\<close> on two \<^verbatim>\<open>int\<close>s: the correctly rounded quotient, \<^verbatim>\<open>ZeroDivisionError\<close> for a
  zero divisor, \<^verbatim>\<open>OverflowError\<close> ("integer division result too large for a float") when
  the quotient is out of range. \<^verbatim>\<open>float(Fraction(a, b))\<close> is the same division.
\<close>

definition py_truediv :: "int \<Rightarrow> int \<Rightarrow> py_error + py_number" where
  "py_truediv a b =
     (if b = 0 then Inl ZeroDivisionError
      else let q = of_int a / of_int b
           in if binary64_overflow q then Inl OverflowError
              else Inr (PyFloat (binary64_round q)))"

text \<open>
  \<^verbatim>\<open>round(x, 2)\<close>: an \<^verbatim>\<open>int\<close> is returned as it is; a \<^verbatim>\<open>float\<close> is rounded, ties to even,
  to two decimals on its exact value, and the decimal result is read back as a binary64.
\<close>

fun py_round2 :: "py_number \<Rightarrow> py_number" where
  "py_round2 (PyInt i) = PyInt i"
| "py_round2 (PyFloat x) = PyFloat (binary64_round (of_int (round_half_even (x * 100)) / 100))"

text \<open>
  \<^verbatim>\<open>statistics.mean\<close> on \<^verbatim>\<open>int\<close>s: the exact sum divided by the number of data points as a
  \<^verbatim>\<open>Fraction\<close>, converted to \<^verbatim>\<open>int\<close> when the denominator is 1 and to \<^verbatim>\<open>float\<close> otherwise;
  \<^verbatim>\<open>StatisticsError\<close> on no data.
\<close>

definition statistics_mean :: "int list \<Rightarrow> py_error + py_number" where
  "statistics_mean data =
     (let total = sum_list data; n = int (length data)
      in if n < 1 then Inl StatisticsError
         else if n dvd total then Inr (PyInt (total div n))
         else py_truediv total n)"

text \<open>
  \<^verbatim>\<open>statistics.median\<close>: the middle value of the sorted data, or the \<^verbatim>\<open>/\<close> average of the
  two middle values when there is an even number of them.
\<close>

definition statistics_median :: "int list \<Rightarrow> py_error + py_number" where
  "statistics_median data0 =
     (let data = sort data0; n = length data
      in if n = 0 then Inl StatisticsError
         else if n mod 2 = 1 then Inr (PyInt (data ! (n div 2)))
         else let i = n div 2 in py_truediv (data ! (i - 1) + data ! i) 2)"

subsection \<open>Records and the summary\<close>

record contribution =
  date :: string
  contributions :: nat
  colorCode :: string
  description :: string

record streak_info =
  streak_length :: nat
  end_date :: "string option"

record statistics_summary =
  total_contributions :: int
  average_daily_contributions :: py_number
  median_daily_contributions :: py_number
  max_contributions_day :: contribution
  streak :: streak_info
  active_days :: nat
  inactive_days :: nat

subsection \<open>\<^verbatim>\<open>calculate_longest_streak\<close>\<close>

text \<open>
  The \<^verbatim>\<open>for\<close> loop, with its three variables as arguments. \<open>end_date = None\<close> is Python's
  \<^verbatim>\<open>None\<close>.
\<close>

fun streak_loop :: "contribution list \<Rightarrow> nat \<Rightarrow> nat \<Rightarrow> string option \<Rightarrow> streak_info" where
  "streak_loop [] current_streak longest_streak streak_end_date =
     \<lparr>streak_length = longest_streak, end_date = streak_end_date\<rparr>"
| "streak_loop (contrib # rest) current_streak longest_streak streak_end_date =
     (if contributions contrib > 0
      then let current_streak' = current_streak + 1
           in if current_streak' > longest_streak
              then streak_loop rest current_streak' current_streak' (Some (date contrib))
              else streak_loop rest current_streak' longest_streak streak_end_date
      else streak_loop rest 0 longest_streak streak_end_date)"

definition calculate_longest_streak :: "contribution list \<Rightarrow> streak_info" where
  "calculate_longest_streak cs = streak_loop cs 0 0 None"

subsection \<open>\<^verbatim>\<open>calculate_statistics\<close>\<close>

text \<open>
  \<^verbatim>\<open>max(xs, key=k)\<close>: one pass that keeps the first item and replaces it only by an item
  with a strictly greater key; \<^verbatim>\<open>ValueError\<close> on an empty sequence.
\<close>

fun max_loop :: "('a \<Rightarrow> nat) \<Rightarrow> 'a \<Rightarrow> 'a list \<Rightarrow> 'a" where
  "max_loop k best [] = best"
| "max_loop k best (x # xs) = max_loop k (if k x > k best then x else best) xs"

definition py_max :: "('a \<Rightarrow> nat) \<Rightarrow> 'a list \<Rightarrow> py_error + 'a" where
  "py_max k xs =
     (case xs of
        [] \<Rightarrow> Inl (ValueError ''max() arg is an empty sequence'')
      | x # rest \<Rightarrow> Inr (max_loop k x rest))"

text \<open>
  The empty dictionary \<^verbatim>\<open>{}\<close> returned for no records is \<open>None\<close>; the dictionary of the
  seven statistics is \<open>Some\<close> of a record. The entries are evaluated in the order the source
  writes them, so the first exception is the one raised.
\<close>

definition calculate_statistics :: "contribution list \<Rightarrow> py_error + statistics_summary option" where
  "calculate_statistics cs =
     (if cs = [] then Inr None
      else
        let contribution_counts = map (\<lambda>c. int (contributions c)) cs in
        case statistics_mean contribution_counts of
          Inl e \<Rightarrow> Inl e
        | Inr mean \<Rightarrow>
            (case statistics_median contribution_counts of
               Inl e \<Rightarrow> Inl e
             | Inr median \<Rightarrow>
                 (case py_max contributions cs of
                    Inl e \<Rightarrow> Inl e
                  | Inr max_day \<Rightarrow>
                      Inr (Some
                        \<lparr>total_contributions = sum_list contribution_counts,
                         average_daily_contributions = py_round2 mean,
                         median_daily_contributions = median,
                         max_contributions_day = max_day,
                         streak = calculate_longest_streak cs,
                         active_days = length (filter (\<lambda>c. c > 0) contribution_counts),
                         inactive_days = length (filter (\<lambda>c. c = 0) contribution_counts)\<rparr>))))"

subsection \<open>\<^verbatim>\<open>fetch_github_data\<close> and its cache\<close>

text \<open>
  What the fetcher meets outside the process is a parameter, the environment.
  \<open>http_get env n url\<close> is what \<^verbatim>\<open>requests.get(url)\<close> gives when it is the request number
  \<open>n\<close> of the process (from 0), so the site may answer the same URL differently over time;
  \<open>Inl\<close> is an exception of \<^verbatim>\<open>requests\<close> (no response). \<open>write_file env n\<close> is what happens
  to \<^verbatim>\<open>with open("response.html", "w", encoding="utf-8") as f: f.write(response.text)\<close>
  after the request number \<open>n\<close>: the file is written (\<open>WriteOk\<close>); \<^verbatim>\<open>open\<close> raises \<^verbatim>\<open>OSError\<close>
  and the file is left as it was (\<open>OpenFails\<close>); or \<^verbatim>\<open>open\<close> has emptied the file and
  writing or closing it raises \<^verbatim>\<open>OSError\<close> when \<open>m\<close> characters have reached the file
  (\<open>WriteFails m\<close>).
\<close>

record response =
  status_code :: int
  response_text :: string

type_synonym cache_key = "string \<times> string \<times> string"

datatype write_outcome = WriteOk | OpenFails | WriteFails nat

record environment =
  http_get :: "nat \<Rightarrow> string \<Rightarrow> py_error + response"
  write_file :: "nat \<Rightarrow> write_outcome"

text \<open>
  The state of the process that the fetcher reads and writes: the entries of the
  \<^verbatim>\<open>lru_cache\<close>, most recently used first; the file \<^verbatim>\<open>response.html\<close> (\<open>None\<close> until it
  is created); and, to count upstream calls, the log of the requests sent, oldest first,
  each with the key it was made for.
\<close>

record fetcher_state =
  cache :: "(cache_key \<times> string) list"
  requests_log :: "(cache_key \<times> string) list"
  response_html :: "string option"


definition contributions_url :: "cache_key \<Rightarrow> string" where
  "contributions_url k =
     (case k of (username, from_date, to_date) \<Rightarrow>
        ''https://github.com/users/'' @ username @ ''/contributions?from='' @ from_date
          @ ''&to='' @ to_date)"

text \<open>The function under the decorator (\<^verbatim>\<open>fetch_github_data.__wrapped__\<close>).\<close>

definition fetch_github_data_wrapped ::
  "environment \<Rightarrow> cache_key \<Rightarrow> fetcher_state \<Rightarrow> (py_error + string) \<times> fetcher_state" where
  "fetch_github_data_wrapped env k s =
     (let url = contributions_url k;
          n = length (requests_log s);
          s1 = s\<lparr>requests_log := requests_log s @ [(k, url)]\<rparr>
      in case http_get env n url of
           Inl e \<Rightarrow> (Inl e, s1)
         | Inr response \<Rightarrow>
             if status_code response = 404
             then (Inl (ValueError ''GitHub user not found''), s1)
             else if status_code response \<noteq> 200
             then (Inl (ValueError ''Failed to fetch GitHub data''), s1)
             else (case write_file env n of
                     OpenFails \<Rightarrow> (Inl OSError, s1)
                   | WriteFails m \<Rightarrow>
                       (Inl OSError, s1\<lparr>response_html := Some (take m (response_text response))\<rparr>)
                   | WriteOk \<Rightarrow>
                       (Inr (response_text response),
                        s1\<lparr>response_html := Some (response_text response)\<rparr>)))"

text \<open>
  \<^verbatim>\<open>@lru_cache(maxsize=100)\<close>: a call whose key is cached returns the cached value and
  makes the entry the most recent one; otherwise the function runs, an exception
  propagates and caches nothing, and a result is cached as the most recent entry, the
  least recently used entry being dropped when the cache already holds \<open>maxsize\<close> entries.
\<close>

definition maxsize :: nat where
  "maxsize = 100"

definition fetch_github_data ::
  "environment \<Rightarrow> cache_key \<Rightarrow> fetcher_state \<Rightarrow> (py_error + string) \<times> fetcher_state" where
  "fetch_github_data env k s =
     (case map_of (cache s) k of
        Some v \<Rightarrow> (Inr v, s\<lparr>cache := (k, v) # filter (\<lambda>kv. fst kv \<noteq> k) (cache s)\<rparr>)
      | None \<Rightarrow>
          (case fetch_github_data_wrapped env k s of
             (Inl e, s1) \<Rightarrow> (Inl e, s1)
           | (Inr v, s1) \<Rightarrow>
               (Inr v,
                s1\<lparr>cache := (k, v) # (if length (cache s1) < maxsize then cache s1
                                        else butlast (cache s1))\<rparr>)))"





subsection \<open>Strings, \<^verbatim>\<open>int\<close> and the count pattern\<close>

definition is_digit :: "char \<Rightarrow> bool" where
  "is_digit c \<longleftrightarrow> CHR ''0'' \<le> c \<and> c \<le> CHR ''9''"

definition char_between :: "char \<Rightarrow> char \<Rightarrow> char \<Rightarrow> bool" where
  "char_between lo hi c \<longleftrightarrow> lo \<le> c \<and> c \<le> hi"

definition digit_value :: "char \<Rightarrow> nat" where
  "digit_value c = of_char c - 48"

definition nat_of_digits :: "string \<Rightarrow> nat" where
  "nat_of_digits ds = foldl (\<lambda>n c. 10 * n + digit_value c) 0 ds"

text \<open>The code points below 256 that \<^verbatim>\<open>str.strip\<close> removes (\<^verbatim>\<open>str.isspace\<close>).\<close>

definition is_space :: "char \<Rightarrow> bool" where
  "is_space c \<longleftrightarrow> (of_char c :: nat) \<in> {9, 10, 11, 12, 13, 28, 29, 30, 31, 32, 133, 160}"

definition py_strip :: "string \<Rightarrow> string" where
  "py_strip s = rev (dropWhile is_space (rev (dropWhile is_space s)))"

text \<open>
  \<^verbatim>\<open>int(s)\<close> on a string, base 10, as CPython reads it: white space around the literal
  (for \<^verbatim>\<open>int\<close> the separators 28 to 31 are not white space), one optional sign, then
  digits with single underscores between them. A literal of more than \<open>maxd\<close> digits is
  refused when the interpreter's limit \<^verbatim>\<open>sys.get_int_max_str_digits()\<close> is \<open>maxd > 0\<close>
  (4300 unless configured; 0 switches the limit off, as for an interpreter without it); the
  limit applies above 640 digits only.
\<close>

definition int_space :: "char \<Rightarrow> bool" where
  "int_space c \<longleftrightarrow> (of_char c :: nat) \<in> {9, 10, 11, 12, 13, 32, 133, 160}"

text \<open>
  The scan over digits and underscores: \<open>prev_us\<close> says that the previous character was
  an underscore. \<open>None\<close> is a doubled or trailing underscore; otherwise the digits read
  and the rest of the string.
\<close>

fun scan_digits :: "bool \<Rightarrow> string \<Rightarrow> string \<Rightarrow> (string \<times> string) option" where
  "scan_digits prev_us acc [] = (if prev_us then None else Some (rev acc, []))"
| "scan_digits prev_us acc (c # cs) =
     (if is_digit c then scan_digits False (c # acc) cs
      else if c = CHR ''_'' then (if prev_us then None else scan_digits True acc cs)
      else if prev_us then None
      else Some (rev acc, c # cs))"

definition invalid_literal :: py_error where
  "invalid_literal = ValueError ''invalid literal for int() with base 10''"

definition py_int :: "nat \<Rightarrow> string \<Rightarrow> py_error + int" where
  "py_int maxd s =
     (let s1 = dropWhile int_space s;
          (sign, s2) = (case s1 of
                          c # cs \<Rightarrow> if c = CHR ''+'' then (1, cs)
                                    else if c = CHR ''-'' then (- 1, cs)
                                    else (1, s1)
                        | [] \<Rightarrow> (1, s1))
      in if take 1 s2 = ''_'' then Inl invalid_literal
         else case scan_digits False [] s2 of
                None \<Rightarrow> Inl invalid_literal
              | Some (ds, rest) \<Rightarrow>
                  if 640 < length ds \<and> 0 < maxd \<and> maxd < length ds
                  then Inl (ValueError ''Exceeds the limit for integer string conversion'')
                  else if ds = [] then Inl invalid_literal
                  else if dropWhile int_space rest \<noteq> [] then Inl invalid_literal
                  else Inr (sign * int (nat_of_digits ds)))"

text \<open>
  \<^verbatim>\<open>re.search(r'(\d+) contributions?', s)\<close>, group 1. \<open>match_count_at\<close> is the pattern
  matched at the start of a string: \<^verbatim>\<open>\d+\<close> takes the whole run of digits (with fewer
  digits the next character is a digit, not the space the pattern wants), and the literal
  \<^verbatim>\<open> contribution\<close> follows; the optional \<^verbatim>\<open>s\<close> changes nothing of group 1. The search
  tries the start positions from left to right.
\<close>

definition match_count_at :: "string \<Rightarrow> string option" where
  "match_count_at s =
     (let ds = takeWhile is_digit s; rest = dropWhile is_digit s
      in if ds \<noteq> [] \<and> take 13 rest = '' contribution'' then Some ds else None)"

fun re_search_count :: "string \<Rightarrow> string option" where
  "re_search_count [] = None"
| "re_search_count (c # cs) =
     (case match_count_at (c # cs) of
        Some ds \<Rightarrow> Some ds
      | None \<Rightarrow> re_search_count cs)"

subsection \<open>Calendar dates and \<^verbatim>\<open>strptime\<close>\<close>

datatype pydate = Date (year: nat) (month: nat) (day: nat)

text \<open>The order of \<^verbatim>\<open>datetime.date\<close>: by year, then month, then day.\<close>

definition date_less :: "pydate \<Rightarrow> pydate \<Rightarrow> bool" where
  "date_less a b \<longleftrightarrow>
     year a < year b \<or> (year a = year b \<and> (month a < month b \<or> (month a = month b \<and> day a < day b)))"

definition is_leap :: "nat \<Rightarrow> bool" where
  "is_leap y \<longleftrightarrow> y mod 4 = 0 \<and> (y mod 100 \<noteq> 0 \<or> y mod 400 = 0)"

definition days_in_month :: "nat \<Rightarrow> nat \<Rightarrow> nat" where
  "days_in_month y m =
     (if m = 2 then (if is_leap y then 29 else 28)
      else if m \<in> {4, 6, 9, 11} then 30 else 31)"

text \<open>
  \<^verbatim>\<open>datetime.strptime(s, '%Y-%m-%d').date()\<close>. The library turns the format into the
  regular expression
  \<^verbatim>\<open>(?P<Y>\d\d\d\d)-(?P<m>1[0-2]|0[1-9]|[1-9])-(?P<d>3[0-1]|[1-2]\d|0[1-9]|[1-9]| [1-9])\<close>,
  matches it at the start of the string, and raises \<^verbatim>\<open>ValueError\<close> when it does not match
  or when characters remain after the match, and again when the numbers are not a date
  (year 0, or a day the month does not have). The alternatives of a group are tried in
  order, and the first that matches is final: after the month a hyphen must follow, which
  no later alternative can reach when an earlier one matched, and nothing follows the day.
\<close>

definition alt1 :: "(char \<Rightarrow> bool) \<Rightarrow> string \<Rightarrow> (string \<times> string) option" where
  "alt1 p s = (case s of c # rest \<Rightarrow> if p c then Some ([c], rest) else None | [] \<Rightarrow> None)"

definition alt2 :: "(char \<Rightarrow> bool) \<Rightarrow> (char \<Rightarrow> bool) \<Rightarrow> string \<Rightarrow> (string \<times> string) option" where
  "alt2 p q s =
     (case s of
        c # d # rest \<Rightarrow> if p c \<and> q d then Some ([c, d], rest) else None
      | _ \<Rightarrow> None)"

definition orelse :: "'a option \<Rightarrow> 'a option \<Rightarrow> 'a option" where
  "orelse a b = (case a of Some x \<Rightarrow> Some x | None \<Rightarrow> b)"

definition match_Y :: "string \<Rightarrow> (string \<times> string) option" where
  "match_Y s =
     (if 4 \<le> length s \<and> list_all is_digit (take 4 s) then Some (take 4 s, drop 4 s) else None)"

definition match_m :: "string \<Rightarrow> (string \<times> string) option" where
  "match_m s =
     orelse (alt2 (\<lambda>c. c = CHR ''1'') (char_between CHR ''0'' CHR ''2'') s)
    (orelse (alt2 (\<lambda>c. c = CHR ''0'') (char_between CHR ''1'' CHR ''9'') s)
            (alt1 (char_between CHR ''1'' CHR ''9'') s))"

definition match_d :: "string \<Rightarrow> (string \<times> string) option" where
  "match_d s =
     orelse (alt2 (\<lambda>c. c = CHR ''3'') (char_between CHR ''0'' CHR ''1'') s)
    (orelse (alt2 (char_between CHR ''1'' CHR ''2'') is_digit s)
    (orelse (alt2 (\<lambda>c. c = CHR ''0'') (char_between CHR ''1'' CHR ''9'') s)
    (orelse (alt1 (char_between CHR ''1'' CHR ''9'') s)
            (alt2 (\<lambda>c. c = CHR '' '') (char_between CHR ''1'' CHR ''9'') s))))"

definition no_match :: py_error where
  "no_match = ValueError ''time data does not match format''"

text \<open>\<open>group_value\<close> is \<^verbatim>\<open>int\<close> of a matched group; the day may start with a space.\<close>

definition group_value :: "string \<Rightarrow> nat" where
  "group_value g = nat_of_digits (filter is_digit g)"

definition strptime_date :: "string \<Rightarrow> py_error + pydate" where
  "strptime_date s =
     (case match_Y s of
        None \<Rightarrow> Inl no_match
      | Some (gY, s1) \<Rightarrow>
          (case s1 of
             [] \<Rightarrow> Inl no_match
           | h1 # s2 \<Rightarrow>
               if h1 \<noteq> CHR ''-'' then Inl no_match
               else
                 (case match_m s2 of
                    None \<Rightarrow> Inl no_match
                  | Some (gm, s3) \<Rightarrow>
                      (case s3 of
                         [] \<Rightarrow> Inl no_match
                       | h2 # s4 \<Rightarrow>
                           if h2 \<noteq> CHR ''-'' then Inl no_match
                           else
                             (case match_d s4 of
                                None \<Rightarrow> Inl no_match
                              | Some (gd, s5) \<Rightarrow>
                                  if s5 \<noteq> [] then Inl (ValueError ''unconverted data remains'')
                                  else
                                    let y = group_value gY; m = group_value gm; d = group_value gd
                                    in if y = 0 then Inl (ValueError ''year 0 is out of range'')
                                       else if days_in_month y m < d
                                       then Inl (ValueError ''day is out of range for month'')
                                       else Inr (Date y m d))))))"

subsection \<open>\<^verbatim>\<open>parse_contribution_data\<close>\<close>

text \<open>
  The parser reads the markup through BeautifulSoup only, with three queries: the
  \<^verbatim>\<open>td\<close> elements of class \<^verbatim>\<open>ContributionCalendar-day\<close> in document order
  (\<^verbatim>\<open>find_all\<close>), three attributes of each (\<^verbatim>\<open>td.get\<close>), and the text of the first
  \<^verbatim>\<open>tool-tip\<close> element whose \<^verbatim>\<open>for\<close> attribute matches an id (\<^verbatim>\<open>soup.find\<close>, then
  \<^verbatim>\<open>.text\<close>). A \<open>document\<close> is the markup as these queries answer: \<open>calendar_days\<close> is the
  list of elements with their attributes (\<open>None\<close> for an absent attribute), and
  \<open>tool_tip_text i\<close> is the text of the tool-tip found for the id \<open>i\<close>, \<open>None\<close> when
  \<^verbatim>\<open>find\<close> returns \<^verbatim>\<open>None\<close>.
\<close>

record td_element =
  data_date :: "string option"
  id_attr :: "string option"
  data_level :: "string option"

record document =
  calendar_days :: "td_element list"
  tool_tip_text :: "string option \<Rightarrow> string option"

definition CONTRIBUTION_COLORS :: "int \<Rightarrow> string option" where
  "CONTRIBUTION_COLORS level =
     (if level = 0 then Some ''#ebedf0''
      else if level = 1 then Some ''#9be9a8''
      else if level = 2 then Some ''#40c463''
      else if level = 3 then Some ''#30a14e''
      else if level = 4 then Some ''#216e39''
      else None)"

text \<open>
  The body of the \<^verbatim>\<open>for\<close> loop, for one element: \<open>Inl\<close> is an exception, which ends
  the loop; \<open>Inr None\<close> is \<^verbatim>\<open>continue\<close>; \<open>Inr (Some r)\<close> is the record that
  \<^verbatim>\<open>contributions.append\<close> adds. \<open>current_date\<close> is \<^verbatim>\<open>datetime.now().date()\<close>, read once
  before the loop. \<open>tooltip_count\<close> is the conditional expression for \<^verbatim>\<open>count\<close>, and
  \<open>level_of\<close> is \<^verbatim>\<open>int(td.get('data-level', 0))\<close>.
\<close>

definition tooltip_count :: "nat \<Rightarrow> string \<Rightarrow> py_error + int" where
  "tooltip_count maxd count_text =
     (case re_search_count count_text of
        Some g \<Rightarrow> py_int maxd g
      | None \<Rightarrow> Inr 0)"

definition level_of :: "nat \<Rightarrow> td_element \<Rightarrow> py_error + int" where
  "level_of maxd td =
     (case data_level td of
        Some l \<Rightarrow> py_int maxd l
      | None \<Rightarrow> Inr 0)"

definition parse_day ::
  "nat \<Rightarrow> pydate \<Rightarrow> (string option \<Rightarrow> string option) \<Rightarrow> td_element
     \<Rightarrow> py_error + contribution option" where
  "parse_day maxd current_date find_tip td =
     (case data_date td of
        None \<Rightarrow> Inr None
      | Some date_str \<Rightarrow>
          if date_str = [] then Inr None
          else
            (case strptime_date date_str of
               Inl e \<Rightarrow> Inl e
             | Inr date_obj \<Rightarrow>
                 if date_less current_date date_obj then Inr None
                 else
                   (case find_tip (id_attr td) of
                      None \<Rightarrow> Inr None
                    | Some tooltip_text \<Rightarrow>
                        let count_text = py_strip tooltip_text in
                        (case tooltip_count maxd count_text of
                           Inl e \<Rightarrow> Inl e
                         | Inr count \<Rightarrow>
                             (case level_of maxd td of
                                Inl e \<Rightarrow> Inl e
                              | Inr level \<Rightarrow>
                                  (case CONTRIBUTION_COLORS level of
                                     None \<Rightarrow> Inl (KeyError level)
                                   | Some color \<Rightarrow>
                                       Inr (Some \<lparr>date = date_str,
                                                  contributions = nat count,
                                                  colorCode = color,
                                                  description = count_text\<rparr>)))))))"

text \<open>The loop over the elements, with the list \<^verbatim>\<open>contributions\<close> built so far as \<open>acc\<close>.\<close>

fun parse_loop ::
  "nat \<Rightarrow> pydate \<Rightarrow> (string option \<Rightarrow> string option) \<Rightarrow> td_element list \<Rightarrow> contribution list
     \<Rightarrow> py_error + contribution list" where
  "parse_loop maxd current_date find_tip [] acc = Inr acc"
| "parse_loop maxd current_date find_tip (td # tds) acc =
     (case parse_day maxd current_date find_tip td of
        Inl e \<Rightarrow> Inl e
      | Inr None \<Rightarrow> parse_loop maxd current_date find_tip tds acc
      | Inr (Some r) \<Rightarrow> parse_loop maxd current_date find_tip tds (acc @ [r]))"

text \<open>
  \<^verbatim>\<open>contributions.sort(key=lambda x: x['date'])\<close> is a stable sort by the date string, in
  the order of Python strings (by code point, a proper prefix first); \<open>sort_key\<close> is the
  stable insertion sort, and the order on \<open>string\<close> is the same lexicographic order.
\<close>

definition parse_contribution_data :: "nat \<Rightarrow> pydate \<Rightarrow> document \<Rightarrow> py_error + contribution list" where
  "parse_contribution_data maxd current_date soup =
     (case parse_loop maxd current_date (tool_tip_text soup) (calendar_days soup) [] of
        Inl e \<Rightarrow> Inl e
      | Inr cs \<Rightarrow> Inr (sort_key date cs))"

subsection \<open>The streak as the specification words it\<close>

text \<open>
  The specification describes the streak as one forward pass that keeps a running counter
  of consecutive records with a positive count, resets it to 0 on a zero count, and
  reports the greatest counter value reached with the date of the record at which it was
  first reached. \<open>running_counters c rs\<close> lists the counter after each record, starting
  from \<open>c\<close>; \<open>streak_single_pass\<close> takes the maximum and the first record that attains it.
\<close>

fun running_counters :: "nat \<Rightarrow> contribution list \<Rightarrow> nat list" where
  "running_counters c [] = []"
| "running_counters c (r # rs) =
     (let c' = (if contributions r > 0 then c + 1 else 0) in c' # running_counters c' rs)"

definition streak_single_pass :: "contribution list \<Rightarrow> streak_info" where
  "streak_single_pass rs =
     (let cs = running_counters 0 rs; m = fold max cs 0
      in \<lparr>streak_length = m,
          end_date = (if m = 0 then None
                      else map_option (\<lambda>(c, r). date r) (find (\<lambda>(c, r). c = m) (zip cs rs)))\<rparr>)"

subsection \<open>Invariants of the cache\<close>




subsection \<open>Example inputs\<close>

text \<open>Concrete inputs at which the theorems below are instantiated.\<close>

definition example_day1 :: contribution where
  "example_day1 =
     \<lparr>date = ''2024-01-01'', contributions = 3, colorCode = ''#40c463'',
      description = ''3 contributions''\<rparr>"

definition example_day2 :: contribution where
  "example_day2 =
     \<lparr>date = ''2024-01-02'', contributions = 0, colorCode = ''#ebedf0'',
      description = ''No contributions''\<rparr>"

definition example_day3 :: contribution where
  "example_day3 =
     \<lparr>date = ''2024-01-03'', contributions = 3, colorCode = ''#40c463'',
      description = ''3 contributions''\<rparr>"

definition example_summary :: statistics_summary where
  "example_summary =
     \<lparr>total_contributions = 6,
      average_daily_contributions = PyInt 2,
      median_daily_contributions = PyInt 3,
      max_contributions_day = example_day1,
      streak = \<lparr>streak_length = 1, end_date = Some ''2024-01-01''\<rparr>,
      active_days = 2, inactive_days = 1\<rparr>"

definition example_idle :: "contribution list" where
  "example_idle = [example_day2, example_day2\<lparr>date := ''2024-01-03''\<rparr>]"

definition example_soup :: document where
  "example_soup =
     \<lparr>calendar_days =
        [\<lparr>data_date = Some ''2024-01-02'', id_attr = Some ''d2'', data_level = Some ''0''\<rparr>,
         \<lparr>data_date = Some ''2024-01-01'', id_attr = Some ''d1'', data_level = Some ''2''\<rparr>,
         \<lparr>data_date = Some ''2024-07-01'', id_attr = Some ''d3'', data_level = Some ''1''\<rparr>,
         \<lparr>data_date = None, id_attr = Some ''d4'', data_level = Some ''0''\<rparr>,
         \<lparr>data_date = Some '''', id_attr = Some ''d5'', data_level = Some ''0''\<rparr>,
         \<lparr>data_date = Some ''2024-01-03'', id_attr = Some ''d6'', data_level = None\<rparr>],
      tool_tip_text =
        [Some ''d1'' \<mapsto> ''5 contributions'', Some ''d2'' \<mapsto> ''No contributions'',
         Some ''d3'' \<mapsto> ''1 contribution'']\<rparr>"

definition example_records :: "contribution list" where
  "example_records =
     [\<lparr>date = ''2024-01-01'', contributions = 5, colorCode = ''#40c463'',
       description = ''5 contributions''\<rparr>,
      \<lparr>date = ''2024-01-02'', contributions = 0, colorCode = ''#ebedf0'',
       description = ''No contributions''\<rparr>]"

definition example_duplicate_soup :: document where
  "example_duplicate_soup =
     \<lparr>calendar_days =
        [\<lparr>data_date = Some ''2024-01-01'', id_attr = Some ''a'', data_level = Some ''1''\<rparr>,
         \<lparr>data_date = Some ''2024-01-01'', id_attr = Some ''b'', data_level = Some ''2''\<rparr>],
      tool_tip_text = [Some ''a'' \<mapsto> ''1 contribution'', Some ''b'' \<mapsto> ''7 contributions'']\<rparr>"

definition example_bad_soup :: document where
  "example_bad_soup =
     \<lparr>calendar_days =
        [\<lparr>data_date = Some ''2024-01-01'', id_attr = Some ''a'', data_level = Some ''1''\<rparr>,
         \<lparr>data_date = Some ''2024-13-01'', id_attr = Some ''b'', data_level = Some ''2''\<rparr>],
      tool_tip_text = [Some ''a'' \<mapsto> ''1 contribution'', Some ''b'' \<mapsto> ''7 contributions'']\<rparr>"

definition example_empty_date_soup :: document where
  "example_empty_date_soup =
     \<lparr>calendar_days =
        [\<lparr>data_date = Some '''', id_attr = Some ''a'', data_level = Some ''1''\<rparr>,
         \<lparr>data_date = Some ''2024-01-01'', id_attr = Some ''b'', data_level = Some ''2''\<rparr>],
      tool_tip_text = [Some ''a'' \<mapsto> ''1 contribution'', Some ''b'' \<mapsto> ''7 contributions'']\<rparr>"

definition example_short_date_soup :: document where
  "example_short_date_soup =
     \<lparr>calendar_days =
        [\<lparr>data_date = Some ''2024-1-5'', id_attr = Some ''a'', data_level = Some ''1''\<rparr>,
         \<lparr>data_date = Some ''2024-01-06'', id_attr = Some ''b'', data_level = Some ''2''\<rparr>],
      tool_tip_text = [Some ''a'' \<mapsto> ''1 contribution'', Some ''b'' \<mapsto> ''7 contributions'']\<rparr>"






definition example_other_key :: cache_key where
  "example_other_key = (''torvalds'', ''2024-01-01'', ''2024-12-31'')"



section \<open>Properties\<close>

subsection \<open>The streak\<close>

lemma fold_max_ge: "(a::nat) \<le> fold max cs a"
proof (induction cs arbitrary: a)
  case Nil
  show ?case by simp
next
  case (Cons c cs)
  have "a \<le> max c a" by simp
  also have "\<dots> \<le> fold max cs (max c a)" by (rule Cons.IH)
  finally show ?case by simp
qed

text \<open>
  The loop started in any state \<open>(c, l, e)\<close>: the reported length is the maximum of \<open>l\<close>
  and the counters, and the end date changes only if a counter exceeds \<open>l\<close>.
\<close>

lemma streak_loop_single_pass:
  "streak_loop rs c l e =
     (let cs = running_counters c rs; m = fold max cs l
      in \<lparr>streak_length = m,
          end_date = (if m = l then e
                      else map_option (\<lambda>(c, r). date r) (find (\<lambda>(c, r). c = m) (zip cs rs)))\<rparr>)"
proof (induction rs arbitrary: c l e)
  case Nil
  show ?case by simp
next
  case (Cons r rs)
  show ?case
  proof (cases "contributions r > 0")
    case False
    then have z: "contributions r = 0" by simp
    have ge: "l \<le> fold max (running_counters 0 rs) l" by (rule fold_max_ge)
    show ?thesis
      using ge by (auto simp: z Cons.IH Let_def)
  next
    case pos: True
    show ?thesis
    proof (cases "c + 1 > l")
      case True
      have ge: "c + 1 \<le> fold max (running_counters (c + 1) rs) (c + 1)" by (rule fold_max_ge)
      have m: "max (c + 1) l = c + 1" using True by simp
      show ?thesis
        using ge True pos by (auto simp: Cons.IH Let_def m)
    next
      case False
      have ge: "l \<le> fold max (running_counters (c + 1) rs) l" by (rule fold_max_ge)
      have m: "max (c + 1) l = l" using False by simp
      show ?thesis
        using ge False pos by (auto simp: Cons.IH Let_def m)
    qed
  qed
qed

text \<open>
  Claim C1. For every record sequence, \<^verbatim>\<open>calculate_longest_streak\<close> returns what the single
  forward pass of the specification returns: as length the greatest value the running
  counter of consecutive positive-count records reaches (0 when it never leaves 0), and as
  end date the date of the first record at which the counter has that value, which is the
  last record of the first run of that length; the end date is absent when the length is 0.
\<close>

theorem longest_streak_is_single_pass:
  "calculate_longest_streak rs = streak_single_pass rs"
  by (simp add: calculate_longest_streak_def streak_single_pass_def streak_loop_single_pass)

text \<open>
  What the counter counts: after the record of index \<open>i\<close> it is the number of consecutive
  records with a positive count that end at \<open>i\<close>.
\<close>

lemma running_counters_length: "length (running_counters c rs) = length rs"
  by (induction rs arbitrary: c) (simp_all add: Let_def)

lemma running_counters_snoc:
  "running_counters c (rs @ [r]) =
     running_counters c rs @
       [if contributions r > 0 then last (c # running_counters c rs) + 1 else 0]"
  by (induction rs arbitrary: c) (simp_all add: Let_def)

lemma last_running_counters:
  "last (c # running_counters c rs) =
     (if \<forall>r\<in>set rs. contributions r > 0 then c + length rs
      else length (takeWhile (\<lambda>r. contributions r > 0) (rev rs)))"
proof (induction rs rule: rev_induct)
  case Nil
  show ?case by simp
next
  case (snoc r rs)
  show ?case using snoc.IH
    by (auto simp: running_counters_snoc takeWhile_eq_all_conv[THEN iffD2])
qed

lemma running_counters_take:
  "take n (running_counters c rs) = running_counters c (take n rs)"
proof (induction rs arbitrary: c n)
  case Nil
  show ?case by simp
next
  case (Cons r rs)
  show ?case by (cases n) (simp_all add: Let_def Cons.IH)
qed

lemma running_counters_nth:
  assumes "i < length rs"
  shows "running_counters 0 rs ! i
     = length (takeWhile (\<lambda>r. contributions r > 0) (rev (take (Suc i) rs)))"
proof -
  let ?cs = "running_counters 0 rs"
  let ?pre = "take (Suc i) rs"
  have i: "i < length ?cs" using assms by (simp add: running_counters_length)
  have ne: "running_counters 0 ?pre \<noteq> []"
    using assms by (cases rs) (simp_all add: Let_def)
  have "?cs ! i = last (take (Suc i) ?cs)"
    using i by (simp add: take_Suc_conv_app_nth)
  also have "\<dots> = last (0 # running_counters 0 ?pre)"
    using ne by (simp add: running_counters_take)
  also have "\<dots> = length (takeWhile (\<lambda>r. contributions r > 0) (rev ?pre))"
    by (simp only: last_running_counters) (auto simp: takeWhile_eq_all_conv[THEN iffD2])
  finally show ?thesis .
qed

text \<open>The streak is never longer than the number of records with a positive count.\<close>

lemma streak_loop_le:
  "streak_length (streak_loop cs c l e)
     \<le> max l (c + length (filter (\<lambda>r. contributions r > 0) cs))"
proof (induction cs arbitrary: c l e)
  case Nil
  show ?case by simp
next
  case (Cons a cs)
  let ?p = "length (filter (\<lambda>r. contributions r > 0) cs)"
  show ?case
  proof (cases "contributions a > 0")
    case False
    have "streak_length (streak_loop cs 0 l e) \<le> max l (0 + ?p)" by (rule Cons.IH)
    then show ?thesis using False by simp
  next
    case pos: True
    show ?thesis
    proof (cases "c + 1 > l")
      case True
      have "streak_length (streak_loop cs (c + 1) (c + 1) (Some (date a)))
          \<le> max (c + 1) (c + 1 + ?p)" by (rule Cons.IH)
      then show ?thesis using pos True by simp
    next
      case False
      have "streak_length (streak_loop cs (c + 1) l e) \<le> max l (c + 1 + ?p)" by (rule Cons.IH)
      then show ?thesis using pos False by simp
    qed
  qed
qed

lemma streak_le_active_days:
  "streak_length (calculate_longest_streak cs) \<le> length (filter (\<lambda>r. contributions r > 0) cs)"
  using streak_loop_le[of cs 0 0 None] by (simp add: calculate_longest_streak_def)

subsection \<open>The summary\<close>

lemma binary64_limit_pos: "0 < binary64_limit"
  by (simp add: binary64_limit_def)

lemma sort_key_eq_Nil: "sort_key f xs = [] \<longleftrightarrow> xs = []"
proof
  assume "sort_key f xs = []"
  then have "length (sort_key f xs) = 0" by simp
  then show "xs = []" by (simp only: length_sort length_0_conv)
next
  assume "xs = []"
  then show "sort_key f xs = []" by simp
qed

text \<open>What a returned summary holds, read off the definition.\<close>

lemma calculate_statistics_SomeD:
  assumes "calculate_statistics cs = Inr (Some s)"
  shows "cs \<noteq> []"
    and "active_days s = length (filter (\<lambda>c. c > 0) (map (\<lambda>c. int (contributions c)) cs))"
    and "inactive_days s = length (filter (\<lambda>c. c = 0) (map (\<lambda>c. int (contributions c)) cs))"
    and "py_max contributions cs = Inr (max_contributions_day s)"
    and "streak s = calculate_longest_streak cs"
    and "total_contributions s = sum_list (map (\<lambda>c. int (contributions c)) cs)"
  using assms
  by (auto simp: calculate_statistics_def Let_def split: if_splits sum.splits)

lemma example_statistics:
  "calculate_statistics [example_day1, example_day2, example_day3] = Inr (Some example_summary)"
  by (simp add: calculate_statistics_def statistics_mean_def statistics_median_def py_max_def
      calculate_longest_streak_def example_day1_def example_day2_def example_day3_def
      example_summary_def Let_def)

text \<open>
  Claim C2. Whenever \<^verbatim>\<open>calculate_statistics\<close> reports a summary for a record sequence,
  the reported \<^verbatim>\<open>active_days\<close> is the number of records with count > 0, the reported
  \<^verbatim>\<open>inactive_days\<close> is the number of records with count 0, and the two add up to the
  length of the sequence. A summary is reported for non-empty sequences only.
\<close>

theorem active_plus_inactive_is_length:
  assumes "calculate_statistics cs = Inr (Some s)"
  shows "active_days s = length (filter (\<lambda>c. contributions c > 0) cs)
     \<and> inactive_days s = length (filter (\<lambda>c. contributions c = 0) cs)
     \<and> active_days s + inactive_days s = length cs"
proof -
  have a: "active_days s = length (filter (\<lambda>c. contributions c > 0) cs)"
    using calculate_statistics_SomeD(2)[OF assms] by (simp add: filter_map comp_def)
  have i: "inactive_days s = length (filter (\<lambda>c. contributions c = 0) cs)"
    using calculate_statistics_SomeD(3)[OF assms] by (simp add: filter_map comp_def)
  have "length (filter (\<lambda>c. contributions c > 0) cs)
      + length (filter (\<lambda>c. contributions c = 0) cs) = length cs"
    by (induction cs) auto
  then show ?thesis using a i by simp
qed

theorem active_plus_inactive_example:
  "active_days example_summary
       = length (filter (\<lambda>c. contributions c > 0) [example_day1, example_day2, example_day3])
     \<and> inactive_days example_summary
       = length (filter (\<lambda>c. contributions c = 0) [example_day1, example_day2, example_day3])
     \<and> active_days example_summary + inactive_days example_summary
       = length [example_day1, example_day2, example_day3]"
  by (rule active_plus_inactive_is_length[OF example_statistics])

text \<open>
  The scan of \<^verbatim>\<open>max\<close> returns an item with a greatest key, every item before it having a
  strictly smaller key.
\<close>

lemma max_loop_first_max:
  "\<exists>ys zs. best # xs = ys @ max_loop k best xs # zs
     \<and> (\<forall>y\<in>set ys. k y < k (max_loop k best xs))
     \<and> (\<forall>z\<in>set zs. k z \<le> k (max_loop k best xs))"
proof (induction xs arbitrary: best)
  case Nil
  show ?case by (intro exI[of _ "[]"]) simp
next
  case (Cons x xs)
  let ?b = "if k x > k best then x else best"
  let ?r = "max_loop k ?b xs"
  from Cons.IH[of ?b] obtain ys zs where
    d: "?b # xs = ys @ ?r # zs" and lt: "\<forall>y\<in>set ys. k y < k ?r" and le: "\<forall>z\<in>set zs. k z \<le> k ?r"
    by blast
  have r: "max_loop k best (x # xs) = ?r" by simp
  show ?case
  proof (cases ys)
    case Nil
    then have rb: "?r = ?b" and zs: "zs = xs" using d by auto
    show ?thesis
    proof (cases "k x > k best")
      case True
      then have "best # x # xs = [best] @ ?r # xs" using rb by simp
      moreover have "\<forall>y\<in>set [best]. k y < k ?r" using True rb by simp
      moreover have "\<forall>z\<in>set xs. k z \<le> k ?r" using le zs by simp
      ultimately show ?thesis unfolding r by blast
    next
      case False
      then have "best # x # xs = [] @ ?r # (x # xs)" using rb by simp
      moreover have "\<forall>z\<in>set (x # xs). k z \<le> k ?r" using le zs False rb by auto
      ultimately show ?thesis unfolding r by (metis empty_iff list.set(1))
    qed
  next
    case (Cons y ys')
    then have y: "y = ?b" and xs: "xs = ys' @ ?r # zs" using d by auto
    have b: "k ?b < k ?r" using lt Cons y by simp
    have "best # x # xs = (best # x # ys') @ ?r # zs" using xs by simp
    moreover have "\<forall>y\<in>set (best # x # ys'). k y < k ?r"
      using lt Cons b by (auto split: if_splits)
    ultimately show ?thesis unfolding r using le by blast
  qed
qed

text \<open>
  Claim C4. Whenever \<^verbatim>\<open>calculate_statistics\<close> reports a summary, its
  \<^verbatim>\<open>max_contributions_day\<close> is a record of the sequence whose count is maximal, and it is
  the first such record in the order of the sequence: every record before it has a
  strictly smaller count, every record after it a count that is not greater.
\<close>

theorem max_day_is_first_maximum:
  assumes "calculate_statistics cs = Inr (Some s)"
  shows "\<exists>ys zs. cs = ys @ max_contributions_day s # zs
     \<and> (\<forall>y\<in>set ys. contributions y < contributions (max_contributions_day s))
     \<and> (\<forall>z\<in>set zs. contributions z \<le> contributions (max_contributions_day s))"
proof -
  from calculate_statistics_SomeD(1,4)[OF assms]
  obtain c rest where c: "cs = c # rest"
    and m: "max_contributions_day s = max_loop contributions c rest"
    by (cases cs) (auto simp: py_max_def)
  show ?thesis using max_loop_first_max[of c rest contributions] unfolding c m by simp
qed

theorem max_day_example:
  "\<exists>ys zs. [example_day1, example_day2, example_day3]
        = ys @ max_contributions_day example_summary # zs
     \<and> (\<forall>y\<in>set ys. contributions y < contributions (max_contributions_day example_summary))
     \<and> (\<forall>z\<in>set zs. contributions z \<le> contributions (max_contributions_day example_summary))"
  by (rule max_day_is_first_maximum[OF example_statistics])

subsection \<open>When a summary is produced\<close>

lemma sum_list_bound:
  fixes xs :: "int list"
  assumes "\<forall>x\<in>set xs. 0 \<le> x \<and> of_int x < (T::rat)"
  shows "0 \<le> sum_list xs \<and> (xs \<noteq> [] \<longrightarrow> of_int (sum_list xs) < of_nat (length xs) * T)"
  using assms
proof (induction xs)
  case Nil
  show ?case by simp
next
  case (Cons x xs)
  then have x: "0 \<le> x" "of_int x < T"
    and IH: "0 \<le> sum_list xs" "xs \<noteq> [] \<longrightarrow> of_int (sum_list xs) < of_nat (length xs) * T"
    by auto
  show ?case
  proof (cases "xs = []")
    case True
    then show ?thesis using x by simp
  next
    case False
    with IH have "of_int (sum_list xs) < of_nat (length xs) * T" by simp
    then show ?thesis using x IH(1) by (simp add: algebra_simps)
  qed
qed

lemma mean_no_overflow:
  fixes xs :: "int list"
  assumes "xs \<noteq> []" "\<forall>x\<in>set xs. 0 \<le> x \<and> of_int x < binary64_limit"
  shows "\<exists>v. statistics_mean xs = Inr v"
proof -
  let ?n = "length xs"
  have n: "0 < ?n" using assms(1) by simp
  have b: "0 \<le> sum_list xs" "of_int (sum_list xs) < of_nat ?n * binary64_limit"
    using sum_list_bound[OF assms(2)] assms(1) by auto
  have q: "(of_int (sum_list xs) :: rat) / of_nat ?n < binary64_limit"
    using b(2) n by (simp add: pos_divide_less_eq mult.commute)
  have q0: "0 \<le> (of_int (sum_list xs) :: rat) / of_nat ?n"
    using b(1) by simp
  have "\<not> binary64_overflow (of_int (sum_list xs) / of_int (int ?n))"
    using q q0 by (simp add: binary64_overflow_def)
  then show ?thesis
    using n by (auto simp: statistics_mean_def py_truediv_def Let_def)
qed

lemma median_no_overflow:
  fixes xs :: "int list"
  assumes "xs \<noteq> []" "\<forall>x\<in>set xs. 0 \<le> x \<and> of_int x < binary64_limit"
  shows "\<exists>v. statistics_median xs = Inr v"
proof -
  let ?d = "sort xs"
  let ?n = "length ?d"
  have n: "0 < ?n" using assms(1) by simp
  have el: "\<And>i. i < ?n \<Longrightarrow> 0 \<le> ?d ! i \<and> of_int (?d ! i) < binary64_limit"
  proof -
    fix i assume "i < ?n"
    then have "?d ! i \<in> set ?d" by (rule nth_mem)
    then have "?d ! i \<in> set xs" by simp
    then show "0 \<le> ?d ! i \<and> of_int (?d ! i) < binary64_limit" using assms(2) by blast
  qed
  show ?thesis
  proof (cases "?n mod 2 = 1")
    case True
    then show ?thesis
      using n assms(1) by (simp add: statistics_median_def Let_def sort_key_eq_Nil)
  next
    case False
    let ?i = "?n div 2"
    have i1: "?i < ?n" using n by simp
    have i2: "?i - 1 < ?n" using i1 by arith
    have a: "0 \<le> ?d ! (?i - 1)" "of_int (?d ! (?i - 1)) < binary64_limit"
      using el[OF i2] by simp_all
    have b: "0 \<le> ?d ! ?i" "of_int (?d ! ?i) < binary64_limit"
      using el[OF i1] by simp_all
    have "\<not> binary64_overflow (of_int (?d ! (?i - 1) + ?d ! ?i) / of_int 2)"
      using a b by (simp add: binary64_overflow_def abs_if)
    then show ?thesis
      using False n assms(1)
      by (auto simp: statistics_median_def py_truediv_def Let_def sort_key_eq_Nil)
  qed
qed

text \<open>
  Claim C6, as the code has it. \<^verbatim>\<open>calculate_statistics\<close> returns the empty summary for
  the empty sequence, without an error. For a non-empty sequence it returns a populated
  summary provided every count is below \<open>2\<^sup>1\<^sup>0\<^sup>2\<^sup>4 - 2\<^sup>9\<^sup>7\<^sup>0\<close>, the bound under which the
  mean and the median fit a \<^verbatim>\<open>float\<close>.
\<close>

theorem statistics_empty_or_populated:
  "calculate_statistics [] = Inr None \<and>
   (cs \<noteq> [] \<and> (\<forall>c\<in>set cs. of_nat (contributions c) < binary64_limit)
      \<longrightarrow> (\<exists>s. calculate_statistics cs = Inr (Some s)))"
proof (intro conjI impI)
  show "calculate_statistics [] = Inr None" by (simp add: calculate_statistics_def)
next
  assume a: "cs \<noteq> [] \<and> (\<forall>c\<in>set cs. of_nat (contributions c) < binary64_limit)"
  let ?xs = "map (\<lambda>c. int (contributions c)) cs"
  have ne: "?xs \<noteq> []" using a by simp
  have bd: "\<forall>x\<in>set ?xs. 0 \<le> x \<and> of_int x < binary64_limit" using a by auto
  obtain m where m: "statistics_mean ?xs = Inr m" using mean_no_overflow[OF ne bd] by blast
  obtain d where d: "statistics_median ?xs = Inr d" using median_no_overflow[OF ne bd] by blast
  obtain c rest where c: "cs = c # rest" using a by (cases cs) auto
  have "py_max contributions cs = Inr (max_loop contributions c rest)"
    by (simp add: c py_max_def)
  then show "\<exists>s. calculate_statistics cs = Inr (Some s)"
    using a m d by (simp add: calculate_statistics_def Let_def)
qed

theorem statistics_populated_example:
  "calculate_statistics [] = Inr None
     \<and> (\<exists>s. calculate_statistics [example_day1, example_day2, example_day3] = Inr (Some s))"
  using statistics_empty_or_populated[of "[example_day1, example_day2, example_day3]"]
    binary64_limit_pos
  by (simp add: example_day1_def example_day2_def example_day3_def binary64_limit_def)

text \<open>
  The claim as stated fails: on two records with the counts 0 and \<open>2\<^sup>1\<^sup>0\<^sup>2\<^sup>5\<close> the average
  of the two middle values is \<open>2\<^sup>1\<^sup>0\<^sup>2\<^sup>4\<close>, which \<^verbatim>\<open>/\<close> cannot return, and the calculator
  raises \<^verbatim>\<open>OverflowError\<close>.
\<close>

theorem statistics_overflow_example:
  "calculate_statistics
     [\<lparr>date = ''2024-01-01'', contributions = 0, colorCode = ''#ebedf0'',
       description = ''No contributions''\<rparr>,
      \<lparr>date = ''2024-01-02'', contributions = 2 ^ 1025, colorCode = ''#216e39'',
       description = ''many contributions''\<rparr>]
   = Inl OverflowError"
  by (simp add: calculate_statistics_def statistics_mean_def statistics_median_def py_truediv_def
      binary64_overflow_def binary64_limit_def Let_def)

text \<open>
  For a non-empty sequence the calculator raises nothing but \<^verbatim>\<open>OverflowError\<close>: it returns
  a summary or the mean or the median is out of the range of \<^verbatim>\<open>float\<close>.
\<close>

lemma py_truediv_cases:
  "b \<noteq> 0 \<Longrightarrow> (\<exists>v. py_truediv a b = Inr v) \<or> py_truediv a b = Inl OverflowError"
  by (simp add: py_truediv_def Let_def)

lemma calculate_statistics_total:
  assumes "cs \<noteq> []"
  shows "(\<exists>s. calculate_statistics cs = Inr (Some s)) \<or> calculate_statistics cs = Inl OverflowError"
proof -
  let ?xs = "map (\<lambda>c. int (contributions c)) cs"
  have n: "int (length ?xs) \<noteq> 0" "\<not> int (length ?xs) < 1" using assms by auto
  have m: "(\<exists>v. statistics_mean ?xs = Inr v) \<or> statistics_mean ?xs = Inl OverflowError"
    using py_truediv_cases[OF n(1), of "sum_list ?xs"] n(2)
    by (auto simp: statistics_mean_def Let_def)
  have d: "(\<exists>v. statistics_median ?xs = Inr v) \<or> statistics_median ?xs = Inl OverflowError"
    using py_truediv_cases[of 2] assms
    by (auto simp: statistics_median_def Let_def sort_key_eq_Nil)
  obtain c rest where c: "cs = c # rest" using assms by (cases cs) auto
  have x: "py_max contributions cs = Inr (max_loop contributions c rest)"
    by (simp add: c py_max_def)
  show ?thesis using m d x assms
    by (auto simp: calculate_statistics_def Let_def)
qed

subsection \<open>Sequences without contributions\<close>

lemma max_loop_all_zero: "\<forall>x\<in>set xs. k x = 0 \<Longrightarrow> max_loop k best xs = best"
  by (induction xs arbitrary: best) auto

lemma streak_loop_all_zero:
  "\<forall>c\<in>set cs. contributions c = 0 \<Longrightarrow>
     streak_loop cs cur longest e = \<lparr>streak_length = longest, end_date = e\<rparr>"
  by (induction cs arbitrary: cur) auto

lemma counts_all_zero:
  "\<forall>c\<in>set cs. contributions c = 0 \<Longrightarrow>
     map (\<lambda>c. int (contributions c)) cs = replicate (length cs) 0"
  by (induction cs) auto

lemma sort_replicate: "sort (replicate n (x::int)) = replicate n x"
  by (induction n) (auto simp: insort_is_Cons)

lemma binary64_no_overflow_0: "\<not> binary64_overflow 0"
  using binary64_limit_pos by (simp add: binary64_overflow_def)

lemma mean_zeros: "0 < n \<Longrightarrow> statistics_mean (replicate n 0) = Inr (PyInt 0)"
  by (simp add: statistics_mean_def Let_def sum_list_replicate)

lemma median_zeros:
  "0 < n \<Longrightarrow> statistics_median (replicate n 0) = Inr (if odd n then PyInt 0 else PyFloat 0)"
proof -
  assume n: "0 < n"
  have i: "n div 2 < n" "n div 2 - 1 < n" using n by auto
  show ?thesis
    using n i
    by (auto simp: statistics_median_def sort_replicate Let_def py_truediv_def
        binary64_no_overflow_0 binary64_round_def odd_iff_mod_2_eq_one)
qed

text \<open>
  Claim C9. For every non-empty record sequence in which every count is 0,
  \<^verbatim>\<open>calculate_statistics\<close> raises no error and returns the summary with streak length 0 and
  no end date, total 0, no active day and as many inactive days as there are records.
  The theorem gives the whole summary: the mean is the integer 0, the median is 0 (an
  \<^verbatim>\<open>int\<close> for an odd number of records, the float \<^verbatim>\<open>0.0\<close> for an even number), and the
  day of the maximum is the first record.
\<close>

theorem all_zero_summary:
  assumes "cs \<noteq> []" "\<forall>c\<in>set cs. contributions c = 0"
  shows "calculate_statistics cs =
     Inr (Some \<lparr>total_contributions = 0,
                average_daily_contributions = PyInt 0,
                median_daily_contributions = (if odd (length cs) then PyInt 0 else PyFloat 0),
                max_contributions_day = hd cs,
                streak = \<lparr>streak_length = 0, end_date = None\<rparr>,
                active_days = 0,
                inactive_days = length cs\<rparr>)"
proof -
  have n: "0 < length cs" using assms(1) by simp
  note z = counts_all_zero[OF assms(2)]
  obtain c rest where c: "cs = c # rest" using assms(1) by (cases cs) auto
  have rest: "\<forall>x\<in>set rest. contributions x = 0" using assms(2) c by simp
  have mx: "py_max contributions cs = Inr (hd cs)"
    by (simp add: c py_max_def max_loop_all_zero[OF rest])
  have st: "calculate_longest_streak cs = \<lparr>streak_length = 0, end_date = None\<rparr>"
    by (simp add: calculate_longest_streak_def streak_loop_all_zero[OF assms(2)])
  show ?thesis
    using assms(1)
    by (simp add: calculate_statistics_def z mean_zeros[OF n] median_zeros[OF n] mx st
        sum_list_replicate)
qed

theorem all_zero_summary_example:
  "calculate_statistics example_idle =
     Inr (Some \<lparr>total_contributions = 0,
                average_daily_contributions = PyInt 0,
                median_daily_contributions = PyFloat 0,
                max_contributions_day = example_day2,
                streak = \<lparr>streak_length = 0, end_date = None\<rparr>,
                active_days = 0,
                inactive_days = 2\<rparr>)"
  using all_zero_summary[of example_idle] by (simp add: example_idle_def example_day2_def)

subsection \<open>The parser\<close>

text \<open>What the loop body does with an element, by the element's date attribute.\<close>

lemma parse_day_SomeD:
  assumes "parse_day maxd now tip td = Inr (Some r)"
  shows "\<exists>d. data_date td = Some (date r) \<and> date r \<noteq> [] \<and> strptime_date (date r) = Inr d
     \<and> \<not> date_less now d"
  using assms
  by (auto simp: parse_day_def Let_def split: option.splits sum.splits if_splits)

lemma parse_day_skip:
  "data_date td = None \<or> data_date td = Some [] \<Longrightarrow> parse_day maxd now tip td = Inr None"
  by (auto simp: parse_day_def)

lemma parse_day_bad_date:
  "data_date td = Some s \<Longrightarrow> s \<noteq> [] \<Longrightarrow> strptime_date s = Inl e
     \<Longrightarrow> parse_day maxd now tip td = Inl e"
  by (simp add: parse_day_def)

lemma parse_loop_Cons_cases:
  obtains (raise) e where "parse_day maxd now tip td = Inl e"
      "parse_loop maxd now tip (td # tds) acc = Inl e"
    | (skip) "parse_day maxd now tip td = Inr None"
      "parse_loop maxd now tip (td # tds) acc = parse_loop maxd now tip tds acc"
    | (append) r where "parse_day maxd now tip td = Inr (Some r)"
      "parse_loop maxd now tip (td # tds) acc = parse_loop maxd now tip tds (acc @ [r])"
proof (cases "parse_day maxd now tip td")
  case (Inl e)
  then show ?thesis using raise by simp
next
  case (Inr res)
  then show ?thesis using skip append by (cases res) simp_all
qed

text \<open>Every record of the result is in \<open>acc\<close> or was built by the body from an element.\<close>

lemma parse_loop_result:
  assumes "parse_loop maxd now tip tds acc = Inr rs"
  shows "\<exists>new. rs = acc @ new
     \<and> (\<forall>r\<in>set new. \<exists>td\<in>set tds. parse_day maxd now tip td = Inr (Some r))"
  using assms
proof (induction tds arbitrary: acc)
  case Nil
  then show ?case by simp
next
  case (Cons td tds)
  show ?case
  proof (cases rule: parse_loop_Cons_cases[of maxd now tip td tds acc])
    case (raise e)
    then show ?thesis using Cons.prems by simp
  next
    case skip
    then have "parse_loop maxd now tip tds acc = Inr rs" using Cons.prems by simp
    from Cons.IH[OF this] show ?thesis by auto
  next
    case (append r)
    then have "parse_loop maxd now tip tds (acc @ [r]) = Inr rs" using Cons.prems by simp
    from Cons.IH[OF this] obtain new where
      n: "rs = (acc @ [r]) @ new"
      "\<forall>x\<in>set new. \<exists>td\<in>set tds. parse_day maxd now tip td = Inr (Some x)"
      by blast
    have "rs = acc @ (r # new)" using n(1) by simp
    moreover have "\<forall>x\<in>set (r # new). \<exists>td'\<in>set (td # tds). parse_day maxd now tip td' = Inr (Some x)"
      using n(2) append(1) by auto
    ultimately show ?thesis by blast
  qed
qed

lemma parse_contribution_data_result:
  assumes "parse_contribution_data maxd now soup = Inr rs"
  shows "\<exists>cs. parse_loop maxd now (tool_tip_text soup) (calendar_days soup) [] = Inr cs
     \<and> rs = sort_key date cs"
  using assms by (auto simp: parse_contribution_data_def split: sum.splits)

lemma parse_contribution_data_origin:
  assumes "parse_contribution_data maxd now soup = Inr rs" "r \<in> set rs"
  shows "\<exists>td\<in>set (calendar_days soup). parse_day maxd now (tool_tip_text soup) td = Inr (Some r)"
proof -
  from parse_contribution_data_result[OF assms(1)] obtain cs where
    cs: "parse_loop maxd now (tool_tip_text soup) (calendar_days soup) [] = Inr cs"
    and rs: "rs = sort_key date cs" by blast
  from parse_loop_result[OF cs] have
    "\<forall>r\<in>set cs. \<exists>td\<in>set (calendar_days soup). parse_day maxd now (tool_tip_text soup) td = Inr (Some r)"
    by auto
  moreover have "r \<in> set cs" using assms(2) rs by simp
  ultimately show ?thesis by blast
qed

lemma example_parse:
  "parse_contribution_data 4300 (Date 2024 6 1) example_soup = Inr example_records"
  by code_simp

text \<open>
  Claim C5. Whenever the parser returns, with \<open>now\<close> the date it took as the current
  date, every returned record has a date string that \<^verbatim>\<open>strptime\<close> reads as a date not
  after \<open>now\<close>; and the date string of a calendar-day element dated strictly after \<open>now\<close>
  is the date of no returned record.
\<close>

theorem parsed_records_not_future:
  assumes "parse_contribution_data maxd now soup = Inr rs"
  shows "(\<forall>r\<in>set rs. \<exists>d. strptime_date (date r) = Inr d \<and> \<not> date_less now d)
     \<and> (\<forall>td\<in>set (calendar_days soup). \<forall>s d.
           data_date td = Some s \<and> strptime_date s = Inr d \<and> date_less now d
             \<longrightarrow> s \<notin> date ` set rs)"
proof -
  have a: "\<exists>d. strptime_date (date r) = Inr d \<and> \<not> date_less now d" if "r \<in> set rs" for r
    using parse_contribution_data_origin[OF assms that] parse_day_SomeD by blast
  have b: "s \<notin> date ` set rs" if "strptime_date s = Inr d" "date_less now d" for s d
  proof
    assume "s \<in> date ` set rs"
    then obtain r where "r \<in> set rs" "date r = s" by auto
    with a[of r] that show False by auto
  qed
  show ?thesis using a b by blast
qed

theorem parsed_records_not_future_example:
  "(\<exists>d. strptime_date ''2024-01-02'' = Inr d \<and> \<not> date_less (Date 2024 6 1) d)
     \<and> ''2024-07-01'' \<notin> date ` set example_records"
proof -
  have f: "strptime_date ''2024-07-01'' = Inr (Date 2024 7 1)" by code_simp
  have l: "date_less (Date 2024 6 1) (Date 2024 7 1)" by (simp add: date_less_def)
  have m: "\<lparr>data_date = Some ''2024-07-01'', id_attr = Some ''d3'', data_level = Some ''1''\<rparr>
      \<in> set (calendar_days example_soup)" by (simp add: example_soup_def)
  have r: "\<lparr>date = ''2024-01-02'', contributions = 0, colorCode = ''#ebedf0'',
       description = ''No contributions''\<rparr> \<in> set example_records" by (simp add: example_records_def)
  from parsed_records_not_future[OF example_parse] have
    a: "\<forall>r\<in>set example_records. \<exists>d. strptime_date (date r) = Inr d \<and> \<not> date_less (Date 2024 6 1) d"
    and b: "\<forall>td\<in>set (calendar_days example_soup). \<forall>s d.
           data_date td = Some s \<and> strptime_date s = Inr d \<and> date_less (Date 2024 6 1) d
             \<longrightarrow> s \<notin> date ` set example_records" by blast+
  from a r have "\<exists>d. strptime_date ''2024-01-02'' = Inr d \<and> \<not> date_less (Date 2024 6 1) d" by force
  moreover from b m f l have "''2024-07-01'' \<notin> date ` set example_records" by force
  ultimately show ?thesis by blast
qed

lemma distinct_map_insort_key:
  "distinct (map f (insort_key f x xs)) \<longleftrightarrow> f x \<notin> f ` set xs \<and> distinct (map f xs)"
  by (induction xs) (auto simp: set_insort_key)

lemma distinct_map_sort_key: "distinct (map f (sort_key f xs)) = distinct (map f xs)"
  by (induction xs) (auto simp: distinct_map_insort_key)

text \<open>
  The loop keeps the dates of its records distinct when the date attributes of the
  elements are.
\<close>

lemma parse_loop_distinct:
  assumes "parse_loop maxd now tip tds acc = Inr rs"
    and "distinct (map date acc)"
    and "distinct (filter (\<lambda>d. d \<noteq> None) (map data_date tds))"
    and "\<forall>r\<in>set acc. Some (date r) \<notin> set (map data_date tds)"
  shows "distinct (map date rs)"
  using assms
proof (induction tds arbitrary: acc)
  case Nil
  then show ?case by simp
next
  case (Cons td tds)
  have tl: "distinct (filter (\<lambda>d. d \<noteq> None) (map data_date tds))"
    using Cons.prems(3) by (simp split: if_splits)
  show ?case
  proof (cases rule: parse_loop_Cons_cases[of maxd now tip td tds acc])
    case (raise e)
    then show ?thesis using Cons.prems(1) by simp
  next
    case skip
    then have "parse_loop maxd now tip tds acc = Inr rs" using Cons.prems(1) by simp
    moreover have "\<forall>r\<in>set acc. Some (date r) \<notin> set (map data_date tds)"
      using Cons.prems(4) by simp
    ultimately show ?thesis using Cons.IH[of acc] Cons.prems(2) tl by blast
  next
    case (append r)
    then have l: "parse_loop maxd now tip tds (acc @ [r]) = Inr rs" using Cons.prems(1) by simp
    have d: "data_date td = Some (date r)" using parse_day_SomeD[OF append(1)] by blast
    have fresh: "date r \<notin> date ` set acc" using Cons.prems(4) d by force
    have a: "distinct (map date (acc @ [r]))" using Cons.prems(2) fresh by simp
    have "Some (date r) \<notin> set (map data_date tds)"
      using Cons.prems(3) d by auto
    then have b: "\<forall>x\<in>set (acc @ [r]). Some (date x) \<notin> set (map data_date tds)"
      using Cons.prems(4) by simp
    show ?thesis using Cons.IH[OF l a tl b] .
  qed
qed

text \<open>
  Claim C3, as the code has it. Whenever the parser returns, the returned records are
  sorted ascending by their date string (in the order of strings); the dates are strictly
  increasing, hence unique, provided no two calendar-day elements of the markup carry the
  same date attribute. The parser removes no duplicates.
\<close>

theorem parsed_records_sorted:
  assumes "parse_contribution_data maxd now soup = Inr rs"
  shows "sorted (map date rs)
     \<and> (distinct (filter (\<lambda>d. d \<noteq> None) (map data_date (calendar_days soup)))
          \<longrightarrow> sorted_wrt (<) (map date rs))"
proof -
  from parse_contribution_data_result[OF assms] obtain cs where
    cs: "parse_loop maxd now (tool_tip_text soup) (calendar_days soup) [] = Inr cs"
    and rs: "rs = sort_key date cs" by blast
  have s: "sorted (map date rs)" unfolding rs by (rule sorted_sort_key)
  have "sorted_wrt (<) (map date rs)"
    if "distinct (filter (\<lambda>d. d \<noteq> None) (map data_date (calendar_days soup)))"
  proof -
    have "distinct (map date cs)" using parse_loop_distinct[OF cs _ that] by simp
    then have "distinct (map date rs)" unfolding rs by (simp add: distinct_map_sort_key)
    then show ?thesis using s by (simp add: strict_sorted_iff)
  qed
  then show ?thesis using s by blast
qed

theorem parsed_records_sorted_example:
  "sorted (map date example_records) \<and> sorted_wrt (<) (map date example_records)"
  using parsed_records_sorted[OF example_parse] by (simp add: example_soup_def)

text \<open>
  The claim as stated fails: two elements with the date \<^verbatim>\<open>2024-01-01\<close> give two records
  with that date.
\<close>

theorem duplicate_dates_example:
  "parse_contribution_data 4300 (Date 2024 6 1) example_duplicate_soup =
     Inr [\<lparr>date = ''2024-01-01'', contributions = 1, colorCode = ''#9be9a8'',
           description = ''1 contribution''\<rparr>,
          \<lparr>date = ''2024-01-01'', contributions = 7, colorCode = ''#40c463'',
           description = ''7 contributions''\<rparr>]
   \<and> \<not> distinct [''2024-01-01'', ''2024-01-01'']"
  by code_simp

text \<open>
  The order is the order of the date strings, which is not the order of the dates when a
  month or a day is written with one digit: the record of 6 January comes before the
  record of 5 January here.
\<close>

lemma string_order_example:
  "parse_contribution_data 4300 (Date 2024 6 1) example_short_date_soup =
     Inr [\<lparr>date = ''2024-01-06'', contributions = 7, colorCode = ''#40c463'',
           description = ''7 contributions''\<rparr>,
          \<lparr>date = ''2024-1-5'', contributions = 1, colorCode = ''#9be9a8'',
           description = ''1 contribution''\<rparr>]
   \<and> strptime_date ''2024-01-06'' = Inr (Date 2024 1 6)
   \<and> strptime_date ''2024-1-5'' = Inr (Date 2024 1 5)
   \<and> date_less (Date 2024 1 5) (Date 2024 1 6)"
  by code_simp

lemma parse_loop_raises:
  assumes "td \<in> set tds" "parse_day maxd now tip td = Inl e"
  shows "\<exists>e'. parse_loop maxd now tip tds acc = Inl e'"
  using assms
proof (induction tds arbitrary: acc)
  case Nil
  then show ?case by simp
next
  case (Cons x tds)
  show ?case
  proof (cases rule: parse_loop_Cons_cases[of maxd now tip x tds acc])
    case (raise e)
    then show ?thesis by simp
  next
    case skip
    then have "x \<noteq> td" using Cons.prems(2) by auto
    then have "td \<in> set tds" using Cons.prems(1) by simp
    from Cons.IH[OF this Cons.prems(2)] show ?thesis using skip(2) by simp
  next
    case (append r)
    then have "x \<noteq> td" using Cons.prems(2) by auto
    then have "td \<in> set tds" using Cons.prems(1) by simp
    from Cons.IH[OF this Cons.prems(2)] show ?thesis using append(2) by simp
  qed
qed

lemma parse_loop_filter_skipped:
  "parse_loop maxd now tip
      (filter (\<lambda>td. data_date td \<noteq> None \<and> data_date td \<noteq> Some []) tds) acc
     = parse_loop maxd now tip tds acc"
proof (induction tds arbitrary: acc)
  case Nil
  show ?case by simp
next
  case (Cons td tds)
  show ?case
  proof (cases "data_date td = None \<or> data_date td = Some []")
    case True
    then show ?thesis using parse_day_skip[OF True] Cons.IH by auto
  next
    case False
    then show ?thesis using Cons.IH by (auto split: sum.splits option.splits)
  qed
qed

text \<open>
  Claim C10, as the code has it. If the markup has a calendar-day element whose date
  attribute is a non-empty string that \<^verbatim>\<open>strptime\<close> with \<^verbatim>\<open>%Y-%m-%d\<close> rejects, the
  parser raises an error and returns no records. Elements whose date attribute is absent
  or is the empty string are skipped, whatever the markup: the loop body does nothing for
  such an element, and removing all of them from the markup changes nothing of the
  parser's result.
\<close>

theorem malformed_date_aborts_parse:
  "(td \<in> set (calendar_days soup) \<and> data_date td = Some s \<and> s \<noteq> [] \<and> strptime_date s = Inl e
      \<longrightarrow> (\<exists>e'. parse_contribution_data maxd now soup = Inl e'))
   \<and> (data_date td' = None \<or> data_date td' = Some []
      \<longrightarrow> parse_day maxd now (tool_tip_text soup) td' = Inr None)
   \<and> parse_contribution_data maxd now
        (soup\<lparr>calendar_days :=
           filter (\<lambda>td. data_date td \<noteq> None \<and> data_date td \<noteq> Some []) (calendar_days soup)\<rparr>)
      = parse_contribution_data maxd now soup"
proof (intro conjI impI)
  assume a: "td \<in> set (calendar_days soup) \<and> data_date td = Some s \<and> s \<noteq> []
      \<and> strptime_date s = Inl e"
  then have "parse_day maxd now (tool_tip_text soup) td = Inl e"
    using parse_day_bad_date[of td s e] by blast
  from parse_loop_raises[OF _ this, of "calendar_days soup" "[]"] a
  obtain e' where "parse_loop maxd now (tool_tip_text soup) (calendar_days soup) [] = Inl e'"
    by blast
  then show "\<exists>e'. parse_contribution_data maxd now soup = Inl e'"
    by (simp add: parse_contribution_data_def)
next
  assume "data_date td' = None \<or> data_date td' = Some []"
  then show "parse_day maxd now (tool_tip_text soup) td' = Inr None"
    by (rule parse_day_skip)
next
  show "parse_contribution_data maxd now
        (soup\<lparr>calendar_days :=
           filter (\<lambda>td. data_date td \<noteq> None \<and> data_date td \<noteq> Some []) (calendar_days soup)\<rparr>)
      = parse_contribution_data maxd now soup"
    by (simp add: parse_contribution_data_def parse_loop_filter_skipped del: not_None_eq)
qed

text \<open>
  At the examples: the cell dated \<^verbatim>\<open>2024-13-01\<close> aborts the parse; the loop body skips
  the cell of \<open>example_soup\<close> whose date is empty; and \<open>example_soup\<close> without its two
  cells that have no date or an empty one parses to the same two records.
\<close>

theorem malformed_date_example:
  "(\<exists>e'. parse_contribution_data 4300 (Date 2024 6 1) example_bad_soup = Inl e')
   \<and> parse_day 4300 (Date 2024 6 1) (tool_tip_text example_soup)
        \<lparr>data_date = Some [], id_attr = Some ''d5'', data_level = Some ''0''\<rparr> = Inr None
   \<and> parse_contribution_data 4300 (Date 2024 6 1)
        (example_soup\<lparr>calendar_days :=
           filter (\<lambda>td. data_date td \<noteq> None \<and> data_date td \<noteq> Some [])
             (calendar_days example_soup)\<rparr>)
      = Inr example_records"
proof -
  have b: "strptime_date ''2024-13-01'' = Inl no_match" by code_simp
  have m: "\<lparr>data_date = Some ''2024-13-01'', id_attr = Some ''b'', data_level = Some ''2''\<rparr>
      \<in> set (calendar_days example_bad_soup)" by (simp add: example_bad_soup_def)
  from malformed_date_aborts_parse[of
      "\<lparr>data_date = Some ''2024-13-01'', id_attr = Some ''b'', data_level = Some ''2''\<rparr>"
      example_bad_soup "''2024-13-01''" no_match 4300 "Date 2024 6 1"] b m
  have 1: "\<exists>e'. parse_contribution_data 4300 (Date 2024 6 1) example_bad_soup = Inl e'"
    by simp
  from malformed_date_aborts_parse[of _ example_soup _ _ 4300 "Date 2024 6 1"
      "\<lparr>data_date = Some [], id_attr = Some ''d5'', data_level = Some ''0''\<rparr>"]
  have 2: "parse_day 4300 (Date 2024 6 1) (tool_tip_text example_soup)
        \<lparr>data_date = Some [], id_attr = Some ''d5'', data_level = Some ''0''\<rparr> = Inr None"
    and 3: "parse_contribution_data 4300 (Date 2024 6 1)
        (example_soup\<lparr>calendar_days :=
           filter (\<lambda>td. data_date td \<noteq> None \<and> data_date td \<noteq> Some [])
             (calendar_days example_soup)\<rparr>)
      = parse_contribution_data 4300 (Date 2024 6 1) example_soup"
    by simp_all
  show ?thesis using 1 2 3 by (simp only: example_parse)
qed

text \<open>
  The claim as stated fails: an element whose date attribute is present and empty is
  skipped, and the parse goes on to return the record of the next element.
\<close>

theorem empty_date_is_skipped:
  "parse_contribution_data 4300 (Date 2024 6 1) example_empty_date_soup =
     Inr [\<lparr>date = ''2024-01-01'', contributions = 7, colorCode = ''#40c463'',
           description = ''7 contributions''\<rparr>]"
  by code_simp

text \<open>
  \<^verbatim>\<open>strptime\<close> accepts more than the ten-character form: a month or a day of one digit
  is read as well.
\<close>

lemma strptime_short_fields: "strptime_date ''2024-1-5'' = Inr (Date 2024 1 5)"
  by code_simp

subsection \<open>The fetcher\<close>





text \<open>A failed write leaves nothing in the cache, and the next invocation asks the site again.\<close>

lemma write_failure_not_cached:
  assumes "map_of (cache s) k = None"
    and "http_get env (length (requests_log s)) (contributions_url k) = Inr r"
    and "status_code r = 200"
    and "write_file env (length (requests_log s)) \<noteq> WriteOk"
  shows "cache (snd (fetch_github_data env k s)) = cache s"
  using assms
  by (simp add: fetch_github_data_def fetch_github_data_wrapped_def Let_def
      split: write_outcome.splits)































subsection \<open>The example of the specification\<close>

text \<open>
  The specification's example: a cell dated \<^verbatim>\<open>2024-01-01\<close> of level 2 with the tooltip
  "5 contributions" and a cell dated \<^verbatim>\<open>2024-01-02\<close> of level 0 with the tooltip
  "No contributions" parse to the two records of \<open>example_records\<close> (lemma
  \<open>example_parse\<close>, where the markup has further cells that are skipped), and the
  statistics of these records are total 5, mean 2.5, median 2.5, one active and one
  inactive day, and the streak of length 1 that ends on \<^verbatim>\<open>2024-01-01\<close>.
\<close>

lemma round_5_2: "binary64_round (5 / 2) = 5 / 2"
  by code_simp

lemma round2_5_2: "py_round2 (PyFloat (5 / 2)) = PyFloat (5 / 2)"
  by code_simp

lemma no_overflow_5_2: "\<not> binary64_overflow (5 / 2)"
  by (simp add: binary64_overflow_def binary64_limit_def)

lemma spec_example_statistics:
  "calculate_statistics example_records =
     Inr (Some \<lparr>total_contributions = 5,
                average_daily_contributions = PyFloat (5 / 2),
                median_daily_contributions = PyFloat (5 / 2),
                max_contributions_day =
                  \<lparr>date = ''2024-01-01'', contributions = 5, colorCode = ''#40c463'',
                   description = ''5 contributions''\<rparr>,
                streak = \<lparr>streak_length = 1, end_date = Some ''2024-01-01''\<rparr>,
                active_days = 1, inactive_days = 1\<rparr>)"
  by (simp add: calculate_statistics_def statistics_mean_def statistics_median_def py_max_def
      py_truediv_def calculate_longest_streak_def example_records_def Let_def
      no_overflow_5_2 round_5_2 round2_5_2 del: py_round2.simps)

end
